theory Spec2Isabelle
  imports Complex_Main
begin

section \<open>Data model\<close>

text \<open>
  JavaScript numbers are modelled as mathematical numbers: counters that the code only
  increments, decrements and compares (coins, streak, combo, play count, timestamps in
  milliseconds) are \<open>int\<close>; coordinates, sizes, points, probabilities and delays are
  \<open>real\<close>. \<open>Math.random()\<close> and \<open>Date.now()\<close> are parameters of the functions that
  call them. A lookup of a key that an object literal does not have gives \<open>undefined\<close>
  in the source; it is \<open>None\<close> here, and so is the \<open>NaN\<close> that arithmetic on it produces.
  DOM updates, sounds and status messages are left out: they do not touch the fields
  modelled here.
\<close>

datatype prize_type = KuromiPlush | YellowCoin | PointToken | PurpleBall

text \<open>
  The source's \<open>{x, y}\<close> objects, in percent of the play field. The \<open>position\<close>
  property of a prize is \<open>prize_position\<close> below, that of the claw \<open>claw_position\<close>.
\<close>

record position =
  pos_x :: real
  pos_y :: real

text \<open>One entry of \<open>GameState.prizes\<close>: type, timestamp and combo of a collected prize.\<close>

record collected_prize =
  cp_type :: prize_type
  cp_timestamp :: int
  cp_combo :: int

record game_state =
  coins :: int
  points :: real
  streak :: int
  totalPlays :: int
  gs_prizes :: "collected_prize list"
  isPlaying :: bool
  clawPosition :: position
  gameStarted :: bool
  combo :: int
  lastWinTime :: int

subsection \<open>\<open>GameState.settings\<close>\<close>

definition startingCoins :: int where
  "startingCoins = 5"

definition successRates :: "prize_type \<Rightarrow> real option" where
  "successRates ty =
     (case ty of
        KuromiPlush \<Rightarrow> Some 0.65
      | YellowCoin \<Rightarrow> Some 0.80
      | PointToken \<Rightarrow> Some 0.75
      | PurpleBall \<Rightarrow> None)"

datatype point_value = MinMax int int | CoinGrant int

definition pointValues :: "prize_type \<Rightarrow> point_value option" where
  "pointValues ty =
     (case ty of
        KuromiPlush \<Rightarrow> Some (MinMax 50 100)
      | YellowCoin \<Rightarrow> Some (CoinGrant 1)
      | PointToken \<Rightarrow> Some (MinMax 10 25)
      | PurpleBall \<Rightarrow> None)"

definition comboTimeout :: int where
  "comboTimeout = 5000"

definition maxStreak :: int where
  "maxStreak = 10"

text \<open>The state the \<open>GameState\<close> constructor builds (and \<open>reset\<close> restores).\<close>

definition initial_game_state :: game_state where
  "initial_game_state =
     \<lparr>coins = 5, points = 0, streak = 0, totalPlays = 0, gs_prizes = [],
      isPlaying = False, clawPosition = \<lparr>pos_x = 50, pos_y = 50\<rparr>,
      gameStarted = False, combo = 0, lastWinTime = 0\<rparr>"

section \<open>\<open>GameState\<close>: coins, points, streak and combo\<close>

definition addCoins :: "int \<Rightarrow> game_state \<Rightarrow> game_state" where
  "addCoins amount g = g\<lparr>coins := coins g + amount\<rparr>"

text \<open>\<open>spendCoin\<close> returns its boolean result together with the state it leaves.\<close>

definition spendCoin :: "game_state \<Rightarrow> bool \<times> game_state" where
  "spendCoin g =
     (if coins g \<le> 0 then (False, g)
      else (True, g\<lparr>coins := coins g - 1, totalPlays := totalPlays g + 1\<rparr>))"

definition addPoints :: "real \<Rightarrow> game_state \<Rightarrow> game_state" where
  "addPoints amount g = g\<lparr>points := points g + amount\<rparr>"

text \<open>
  \<open>processPrizeReward\<close>: \<open>r\<close> is the value of \<open>Math.random()\<close>. The \<open>switch\<close> has no
  case for \<open>purpleBall\<close>, which earns nothing.
\<close>

definition baseRewardOf :: "real \<Rightarrow> int \<Rightarrow> int \<Rightarrow> int" where
  "baseRewardOf r mn mx = \<lfloor>r * real_of_int (mx - mn + 1)\<rfloor> + mn"

definition processPrizeReward :: "prize_type \<Rightarrow> real \<Rightarrow> game_state \<Rightarrow> game_state" where
  "processPrizeReward ty r g =
     (case (ty, pointValues ty) of
        (KuromiPlush, Some (MinMax mn mx)) \<Rightarrow>
          addPoints (real_of_int (baseRewardOf r mn mx)
                       * (1 + (real_of_int (combo g) - 1) * 0.1)) g
      | (YellowCoin, Some (CoinGrant c)) \<Rightarrow> addPoints 20 (addCoins c g)
      | (PointToken, Some (MinMax mn mx)) \<Rightarrow>
          addPoints (real_of_int (baseRewardOf r mn mx)
                       * (1 + (real_of_int (streak g) - 1) * 0.05)) g
      | _ \<Rightarrow> g)"

text \<open>\<open>collectPrize\<close>: \<open>now\<close> is \<open>Date.now()\<close>, \<open>r\<close> the reward draw.\<close>

definition collectPrize :: "int \<Rightarrow> prize_type \<Rightarrow> real \<Rightarrow> game_state \<Rightarrow> game_state" where
  "collectPrize now ty r g =
     (let g1 = g\<lparr>combo := (if now - lastWinTime g < comboTimeout then combo g + 1 else 1)\<rparr>;
          g2 = g1\<lparr>lastWinTime := now\<rparr>;
          g3 = g2\<lparr>streak := (if streak g2 + 1 > maxStreak then maxStreak else streak g2 + 1)\<rparr>;
          g4 = g3\<lparr>gs_prizes := gs_prizes g3 @
                  [\<lparr>cp_type = ty, cp_timestamp = now, cp_combo = combo g3\<rparr>]\<rparr>
      in processPrizeReward ty r g4)"

text \<open>\<open>missedGrab\<close>: \<open>r\<close> is the draw that decides the consolation points.\<close>

definition missedGrab :: "real \<Rightarrow> game_state \<Rightarrow> game_state" where
  "missedGrab r g =
     (let g1 = g\<lparr>streak := 0, combo := 0\<rparr>
      in if r < 0.3 then addPoints 5 g1 else g1)"

definition updateClawPosition :: "real \<Rightarrow> real \<Rightarrow> game_state \<Rightarrow> game_state" where
  "updateClawPosition x y g =
     g\<lparr>clawPosition := \<lparr>pos_x = max 10 (min 90 x), pos_y = max 10 (min 90 y)\<rparr>\<rparr>"

definition setPlaying :: "bool \<Rightarrow> game_state \<Rightarrow> game_state" where
  "setPlaying playing g =
     (let g1 = g\<lparr>isPlaying := playing\<rparr>
      in if playing \<and> \<not> gameStarted g1 then g1\<lparr>gameStarted := True\<rparr> else g1)"

definition canPlay :: "game_state \<Rightarrow> bool" where
  "canPlay g = (coins g > 0 \<and> \<not> isPlaying g)"

text \<open>
  \<open>getSuccessRate\<close>. \<open>settings.successRates\<close> has no entry for \<open>purpleBall\<close>: there
  \<open>baseRate\<close> is \<open>undefined\<close>, the sum is \<open>NaN\<close>, and \<open>Math.min\<close> and \<open>Math.max\<close>
  return \<open>NaN\<close>; that result is \<open>None\<close>.
\<close>

definition getSuccessRate :: "prize_type \<Rightarrow> game_state \<Rightarrow> real option" where
  "getSuccessRate ty g =
     (let streakBonus = min (real_of_int (streak g) * 0.02) 0.1;
          lowCoinPenalty = (if coins g < 2 then 0.05 else 0)
      in case successRates ty of
           None \<Rightarrow> None
         | Some baseRate \<Rightarrow> Some (max 0.3 (min 0.9 (baseRate + streakBonus - lowCoinPenalty))))"

definition reset_game :: "game_state \<Rightarrow> game_state" where
  "reset_game g =
     g\<lparr>coins := startingCoins, points := 0, streak := 0, totalPlays := 0, gs_prizes := [],
       isPlaying := False, clawPosition := \<lparr>pos_x = 50, pos_y = 50\<rparr>,
       gameStarted := False, combo := 0, lastWinTime := 0\<rparr>"

text \<open>
  The operations on the progression state, as events, and the states they reach from
  the constructor's state.
\<close>

datatype progress_event =
    EvCollectPrize int prize_type real
  | EvMissedGrab real
  | EvSpendCoin
  | EvAddCoins int
  | EvAddPoints real
  | EvReset

fun apply_event :: "progress_event \<Rightarrow> game_state \<Rightarrow> game_state" where
  "apply_event (EvCollectPrize now ty r) g = collectPrize now ty r g"
| "apply_event (EvMissedGrab r) g = missedGrab r g"
| "apply_event EvSpendCoin g = snd (spendCoin g)"
| "apply_event (EvAddCoins n) g = addCoins n g"
| "apply_event (EvAddPoints p) g = addPoints p g"
| "apply_event EvReset g = reset_game g"

definition run_events :: "progress_event list \<Rightarrow> game_state" where
  "run_events evs = fold apply_event evs initial_game_state"

section \<open>\<open>PrizeGenerator\<close>: the prize field\<close>

record prize_size =
  width :: real
  height :: real

text \<open>
  A prize object; \<open>rarity\<close>, \<open>stackable\<close>, \<open>element\<close>, \<open>wobble\<close> and \<open>depth\<close> only
  steer the rendering and are left out.
\<close>

record prize =
  prize_id :: nat
  ptype :: prize_type
  prize_position :: position
  psize :: prize_size
  grabbed :: bool
  collected :: bool

text \<open>\<open>prizeTypes\<close>: the configured count and size of each type.\<close>

definition prizeTypes_count :: "prize_type \<Rightarrow> nat" where
  "prizeTypes_count ty =
     (case ty of KuromiPlush \<Rightarrow> 8 | YellowCoin \<Rightarrow> 6 | PointToken \<Rightarrow> 12 | PurpleBall \<Rightarrow> 10)"

definition prizeTypes_size :: "prize_type \<Rightarrow> prize_size" where
  "prizeTypes_size ty =
     (case ty of
        KuromiPlush \<Rightarrow> \<lparr>width = 45, height = 45\<rparr>
      | YellowCoin \<Rightarrow> \<lparr>width = 35, height = 35\<rparr>
      | PointToken \<Rightarrow> \<lparr>width = 30, height = 30\<rparr>
      | PurpleBall \<Rightarrow> \<lparr>width = 32, height = 32\<rparr>)"

text \<open>\<open>boundaries\<close> of the prize field.\<close>

definition bnd_left :: real where "bnd_left = 0"
definition bnd_right :: real where "bnd_right = 100"
definition bnd_top :: real where "bnd_top = 0"
definition bnd_bottom :: real where "bnd_bottom = 85"

definition margin :: real where
  "margin = 5"

text \<open>\<open>getRandomPosition\<close>: \<open>rx\<close> and \<open>ry\<close> are the two draws of \<open>Math.random()\<close>.\<close>

definition getRandomPosition :: "prize_size \<Rightarrow> real \<Rightarrow> real \<Rightarrow> position" where
  "getRandomPosition sz rx ry =
     \<lparr>pos_x = margin + rx * (bnd_right - bnd_left - width sz / 2 - margin * 2),
      pos_y = margin + ry * (bnd_bottom - bnd_top - height sz / 2 - margin * 2)\<rparr>"

definition checkOverlap :: "prize \<Rightarrow> prize \<Rightarrow> bool" where
  "checkOverlap prize1 prize2 =
     (let buffer = 5;
          dx = \<bar>pos_x (prize_position prize1) - pos_x (prize_position prize2)\<bar>;
          dy = \<bar>pos_y (prize_position prize1) - pos_y (prize_position prize2)\<bar>;
          minDistance = (width (psize prize1) + width (psize prize2)) / 2 + buffer
      in dx < minDistance \<and> dy < minDistance)"

text \<open>
  \<open>resolveOverlaps\<close>. The random source is a sequence \<open>rnd\<close> of draws with the index
  \<open>k\<close> of the next one. The loop state is the prize array, the \<open>hasOverlap\<close> flag and
  \<open>k\<close>. \<open>overlap_step\<close> is the body of the inner loop, \<open>overlap_inner\<close> the inner
  loop for one \<open>i\<close>, \<open>overlap_pass\<close> one iteration of the \<open>while\<close> loop, and
  \<open>resolve_loop\<close> the \<open>while\<close> loop, which returns the array, \<open>attempts\<close> and \<open>k\<close>.
\<close>

definition maxAttempts :: nat where
  "maxAttempts = 50"

definition overlap_step ::
  "(nat \<Rightarrow> real) \<Rightarrow> nat \<Rightarrow> nat \<Rightarrow> prize list \<times> bool \<times> nat \<Rightarrow> prize list \<times> bool \<times> nat" where
  "overlap_step rnd i j st =
     (case st of (ps, hasOverlap, k) \<Rightarrow>
        if checkOverlap (ps ! i) (ps ! j)
        then (ps[j := (ps ! j)\<lparr>prize_position :=
                        getRandomPosition (psize (ps ! j)) (rnd k) (rnd (k + 1))\<rparr>],
              True, k + 2)
        else (ps, hasOverlap, k))"

definition overlap_inner ::
  "(nat \<Rightarrow> real) \<Rightarrow> nat \<Rightarrow> prize list \<times> bool \<times> nat \<Rightarrow> prize list \<times> bool \<times> nat" where
  "overlap_inner rnd i st = fold (overlap_step rnd i) [i + 1 ..< length (fst st)] st"

definition overlap_pass ::
  "(nat \<Rightarrow> real) \<Rightarrow> prize list \<Rightarrow> nat \<Rightarrow> prize list \<times> bool \<times> nat" where
  "overlap_pass rnd ps k = fold (overlap_inner rnd) [0 ..< length ps] (ps, False, k)"

function resolve_loop ::
  "(nat \<Rightarrow> real) \<Rightarrow> nat \<Rightarrow> prize list \<Rightarrow> nat \<Rightarrow> prize list \<times> nat \<times> nat" where
  "resolve_loop rnd attempts ps k =
     (if attempts < maxAttempts
      then (case overlap_pass rnd ps k of (ps', hasOverlap, k') \<Rightarrow>
              if \<not> hasOverlap then (ps', attempts, k')
              else resolve_loop rnd (attempts + 1) ps' k')
      else (ps, attempts, k))"
  by pat_completeness auto
termination
  by (relation "measure (\<lambda>(rnd, attempts, ps, k). maxAttempts - attempts)") auto

definition resolveOverlaps ::
  "(nat \<Rightarrow> real) \<Rightarrow> prize list \<Rightarrow> nat \<Rightarrow> prize list \<times> nat \<times> nat" where
  "resolveOverlaps rnd ps k = resolve_loop rnd 0 ps k"

text \<open>
  \<open>getPrizeAtPosition\<close>: \<open>in_reach\<close> is the predicate handed to \<open>Array.find\<close>, which
  returns the first element that satisfies it, or \<open>undefined\<close> (\<open>None\<close>).
\<close>

definition in_reach :: "real \<Rightarrow> real \<Rightarrow> real \<Rightarrow> prize \<Rightarrow> bool" where
  "in_reach x y tolerance p =
     (if collected p \<or> grabbed p then False
      else sqrt ((pos_x (prize_position p) - x)\<^sup>2 + (pos_y (prize_position p) - y)\<^sup>2)
             \<le> tolerance)"

definition getPrizeAtPosition :: "real \<Rightarrow> real \<Rightarrow> real \<Rightarrow> prize list \<Rightarrow> prize option" where
  "getPrizeAtPosition x y tolerance ps = find (in_reach x y tolerance) ps"

definition default_tolerance :: real where
  "default_tolerance = 15"

text \<open>The straight-line distance of a prize to a point.\<close>

definition distance_to :: "real \<Rightarrow> real \<Rightarrow> prize \<Rightarrow> real" where
  "distance_to x y p =
     sqrt ((pos_x (prize_position p) - x)\<^sup>2 + (pos_y (prize_position p) - y)\<^sup>2)"

text \<open>
  Modelled from the spec: \<open>PrizeGenerator.dropPrize\<close> is called by \<open>drop\<close> and
  \<open>emergencyStop\<close> but is not in the source. The spec has the held prize released
  back into play at the current position, nothing awarded: the prize with the held
  id has its transient \<open>grabbed\<close> flag cleared and lies at the claw's position; its
  \<open>collected\<close> flag and every other prize stay as they are.
\<close>

definition dropPrize :: "nat \<Rightarrow> position \<Rightarrow> prize list \<Rightarrow> prize list" where
  "dropPrize pid pos ps =
     map (\<lambda>p. if prize_id p = pid then p\<lparr>grabbed := False, prize_position := pos\<rparr> else p) ps"

section \<open>\<open>ClawController\<close>: the claw and its timers\<close>

text \<open>
  A callback handed to \<open>setTimeout\<close>. Only the callbacks that touch the modelled
  fields are kept; the others remove CSS classes or DOM nodes.
\<close>

datatype callback =
    MoveDone
  | AttemptGrabCb
  | ClawUpCb
  | ReturnClawCb
  | CompleteCb
  | ResetHomeCb
  | RestoreSpeedCb real

text \<open>
  The controller with the two objects it shares, \<open>gameState\<close> and the prize array of
  the generator. \<open>grabbedPrize\<close> is a reference to a prize object of the array, held
  here as the prize's id. \<open>timers\<close> are the callbacks scheduled with \<open>setTimeout\<close> and
  not yet run, each with its due time, in the order they were scheduled; \<open>now_ms\<close> is
  the clock. The source keeps no timer handle and never calls \<open>clearTimeout\<close>.
\<close>

record machine =
  gameState :: game_state
  prizes :: "prize list"
  claw_position :: position
  homePosition :: position
  isMoving :: bool
  isGrabbing :: bool
  grabbedPrize :: "nat option"
  moveSpeed :: real
  now_ms :: real
  timers :: "(real \<times> callback) list"

definition moveStep :: real where "moveStep = 8"
definition grabSequenceTime :: real where "grabSequenceTime = 2500"
definition minX :: real where "minX = 15"
definition maxX :: real where "maxX = 85"
definition minY :: real where "minY = 15"
definition maxY :: real where "maxY = 75"

text \<open>The controller after its constructor, over a given prize array.\<close>

definition initial_machine :: "prize list \<Rightarrow> machine" where
  "initial_machine ps =
     \<lparr>gameState = initial_game_state, prizes = ps,
      claw_position = \<lparr>pos_x = 50, pos_y = 50\<rparr>, homePosition = \<lparr>pos_x = 50, pos_y = 50\<rparr>,
      isMoving = False, isGrabbing = False, grabbedPrize = None,
      moveSpeed = 500, now_ms = 0, timers = []\<rparr>"

definition setTimeout :: "callback \<Rightarrow> real \<Rightarrow> machine \<Rightarrow> machine" where
  "setTimeout cb delay m = m\<lparr>timers := timers m @ [(now_ms m + delay, cb)]\<rparr>"

datatype direction = DirLeft | DirRight | DirForward | DirBack | DirOther

definition animateMovement :: "position \<Rightarrow> machine \<Rightarrow> machine" where
  "animateMovement newPosition m =
     (let m1 = m\<lparr>isMoving := True\<rparr>;
          m2 = m1\<lparr>claw_position := newPosition\<rparr>;
          m3 = m2\<lparr>gameState :=
                 updateClawPosition (pos_x newPosition) (pos_y newPosition) (gameState m2)\<rparr>
      in setTimeout MoveDone (moveSpeed m3) m3)"

text \<open>
  \<open>move\<close>: the \<open>switch\<close> has the four directions and no default, so any other
  argument (\<open>DirOther\<close>) leaves \<open>newPosition\<close> a copy of the position.
\<close>

definition move :: "direction \<Rightarrow> machine \<Rightarrow> bool \<times> machine" where
  "move d m =
     (if isMoving m \<or> isGrabbing m \<or> \<not> canPlay (gameState m) then (False, m)
      else
        let pos = claw_position m;
            newPosition =
              (case d of
                 DirLeft \<Rightarrow> pos\<lparr>pos_x := max minX (pos_x pos - moveStep)\<rparr>
               | DirRight \<Rightarrow> pos\<lparr>pos_x := min maxX (pos_x pos + moveStep)\<rparr>
               | DirForward \<Rightarrow> pos\<lparr>pos_y := min maxY (pos_y pos + moveStep)\<rparr>
               | DirBack \<Rightarrow> pos\<lparr>pos_y := max minY (pos_y pos - moveStep)\<rparr>
               | DirOther \<Rightarrow> pos)
        in if pos_x newPosition = pos_x pos \<and> pos_y newPosition = pos_y pos then (False, m)
           else (True, animateMovement newPosition m))"

definition executeGrabSequence :: "machine \<Rightarrow> machine" where
  "executeGrabSequence m =
     setTimeout CompleteCb grabSequenceTime
       (setTimeout ReturnClawCb (grabSequenceTime * 0.8)
          (setTimeout ClawUpCb (grabSequenceTime * 0.6)
             (setTimeout AttemptGrabCb (grabSequenceTime * 0.4) m)))"

definition grab :: "machine \<Rightarrow> bool \<times> machine" where
  "grab m =
     (if isMoving m \<or> isGrabbing m \<or> \<not> canPlay (gameState m) then (False, m)
      else
        case spendCoin (gameState m) of
          (spent, g1) \<Rightarrow>
            if \<not> spent then (False, m\<lparr>gameState := g1\<rparr>)
            else (True,
                  executeGrabSequence
                    (m\<lparr>gameState := setPlaying True g1, isGrabbing := True\<rparr>)))"

text \<open>
  \<open>ClawController.attemptGrab\<close>. \<open>PrizeGenerator.attemptGrab\<close> is not in the source;
  its result is the parameter \<open>grabResult\<close>: \<open>None\<close> when \<open>success\<close> is false, the
  prize's id when it is true.
\<close>

definition attemptGrab :: "nat option \<Rightarrow> machine \<Rightarrow> machine" where
  "attemptGrab grabResult m =
     (case grabResult of
        Some pid \<Rightarrow> m\<lparr>grabbedPrize := Some pid\<rparr>
      | None \<Rightarrow> m)"

definition animateReturn :: "position \<Rightarrow> machine \<Rightarrow> machine" where
  "animateReturn targetPosition m = m\<lparr>claw_position := targetPosition\<rparr>"

definition returnClaw :: "machine \<Rightarrow> machine" where
  "returnClaw m =
     (let returnPosition =
            (case grabbedPrize m of
               Some pid \<Rightarrow> \<lparr>pos_x = 50, pos_y = 70\<rparr>
             | None \<Rightarrow> homePosition m)
      in animateReturn returnPosition m)"

text \<open>\<open>completeGrabSequence\<close>: \<open>r\<close> is the draw of \<open>missedGrab\<close>.\<close>

definition completeGrabSequence :: "real \<Rightarrow> machine \<Rightarrow> machine" where
  "completeGrabSequence r m =
     (let m1 = m\<lparr>isGrabbing := False\<rparr>;
          m2 = m1\<lparr>gameState := setPlaying False (gameState m1)\<rparr>;
          m3 = (case grabbedPrize m2 of
                  Some pid \<Rightarrow> m2\<lparr>grabbedPrize := None\<rparr>
                | None \<Rightarrow> m2\<lparr>gameState := missedGrab r (gameState m2)\<rparr>)
      in setTimeout ResetHomeCb 1000 m3)"

definition drop :: "machine \<Rightarrow> bool \<times> machine" where
  "drop m =
     (if \<not> isGrabbing m \<and> grabbedPrize m = None then (False, m)
      else
        (True,
         case grabbedPrize m of
           Some pid \<Rightarrow>
             m\<lparr>prizes := dropPrize pid (claw_position m) (prizes m), grabbedPrize := None\<rparr>
         | None \<Rightarrow> m))"

definition resetToHome :: "machine \<Rightarrow> machine" where
  "resetToHome m =
     (let m1 = m\<lparr>claw_position := homePosition m\<rparr>
      in m1\<lparr>gameState :=
              updateClawPosition (pos_x (claw_position m1)) (pos_y (claw_position m1))
                (gameState m1)\<rparr>)"

definition emergencyStop :: "machine \<Rightarrow> machine" where
  "emergencyStop m =
     (let m1 = m\<lparr>isMoving := False\<rparr>;
          m2 = m1\<lparr>isGrabbing := False\<rparr>;
          m3 = m2\<lparr>gameState := setPlaying False (gameState m2)\<rparr>;
          m4 = (case grabbedPrize m3 of
                  Some pid \<Rightarrow>
                    m3\<lparr>prizes := dropPrize pid (claw_position m3) (prizes m3),
                       grabbedPrize := None\<rparr>
                | None \<Rightarrow> m3)
      in resetToHome m4)"

text \<open>
  Running a callback: \<open>grabResult\<close> and \<open>r\<close> are what the callback may read from the
  prize generator and from \<open>Math.random()\<close>. \<open>animateClawUp\<close> changes CSS classes and
  calls \<open>transportPrize\<close>, which is not in the source; it changes none of the fields
  here.
\<close>

definition run_callback :: "callback \<Rightarrow> nat option \<Rightarrow> real \<Rightarrow> machine \<Rightarrow> machine" where
  "run_callback cb grabResult r m =
     (case cb of
        MoveDone \<Rightarrow> m\<lparr>isMoving := False\<rparr>
      | AttemptGrabCb \<Rightarrow> attemptGrab grabResult m
      | ClawUpCb \<Rightarrow> m
      | ReturnClawCb \<Rightarrow> returnClaw m
      | CompleteCb \<Rightarrow> completeGrabSequence r m
      | ResetHomeCb \<Rightarrow> resetToHome m
      | RestoreSpeedCb originalSpeed \<Rightarrow> m\<lparr>moveSpeed := originalSpeed\<rparr>)"

text \<open>
  The event loop: the pending timer with the least due time runs next, the one
  scheduled first among equals; the clock moves to its due time.
\<close>

fun earliest :: "(real \<times> callback) list \<Rightarrow> (real \<times> callback) option" where
  "earliest [] = None"
| "earliest (t # ts) =
     (case earliest ts of
        None \<Rightarrow> Some t
      | Some u \<Rightarrow> if fst u < fst t then Some u else Some t)"

definition fire_next :: "nat option \<Rightarrow> real \<Rightarrow> machine \<Rightarrow> machine" where
  "fire_next grabResult r m =
     (case earliest (timers m) of
        None \<Rightarrow> m
      | Some t \<Rightarrow>
          run_callback (snd t) grabResult r
            (m\<lparr>now_ms := max (now_ms m) (fst t), timers := remove1 t (timers m)\<rparr>))"

section \<open>\<open>KuromiClawMachine\<close>: the game loop's check\<close>

text \<open>
  \<open>triggerComboSpecialEffect\<close>: besides particles, a speed boost that a timer takes
  back after ten seconds.
\<close>

definition triggerComboSpecialEffect :: "machine \<Rightarrow> machine" where
  "triggerComboSpecialEffect m =
     (let originalSpeed = moveSpeed m
      in setTimeout (RestoreSpeedCb originalSpeed) 10000
           (m\<lparr>moveSpeed := originalSpeed * 0.7\<rparr>))"

text \<open>
  \<open>checkSpecialConditions\<close>: \<open>r\<close> is the draw of the combo effect. The devil mode
  of the first branch belongs to the effects layer.
\<close>

definition checkSpecialConditions :: "real \<Rightarrow> machine \<Rightarrow> machine" where
  "checkSpecialConditions r m =
     (let m1 = (if combo (gameState m) \<ge> 3 \<and> r < 0.1
                then triggerComboSpecialEffect m else m)
      in if coins (gameState m1) = 0 \<and> streak (gameState m1) \<ge> 3
         then m1\<lparr>gameState := addCoins 2 (gameState m1)\<rparr>
         else m1)"

section \<open>Notions of the specification\<close>

text \<open>The movement boundary of the claw: \<open>[minX, maxX]\<close> by \<open>[minY, maxY]\<close>.\<close>

definition within_boundary :: "position \<Rightarrow> bool" where
  "within_boundary p =
     (minX \<le> pos_x p \<and> pos_x p \<le> maxX \<and> minY \<le> pos_y p \<and> pos_y p \<le> maxY)"

definition clamp :: "real \<Rightarrow> real \<Rightarrow> real \<Rightarrow> real" where
  "clamp lo hi v = max lo (min hi v)"

text \<open>
  The target of a move in the specification's words: the position advanced by the
  fixed step along one axis and clamped to the boundary on that axis.
\<close>

definition spec_move_target :: "direction \<Rightarrow> position \<Rightarrow> position" where
  "spec_move_target d p =
     (case d of
        DirLeft \<Rightarrow> p\<lparr>pos_x := clamp minX maxX (pos_x p - moveStep)\<rparr>
      | DirRight \<Rightarrow> p\<lparr>pos_x := clamp minX maxX (pos_x p + moveStep)\<rparr>
      | DirForward \<Rightarrow> p\<lparr>pos_y := clamp minY maxY (pos_y p + moveStep)\<rparr>
      | DirBack \<Rightarrow> p\<lparr>pos_y := clamp minY maxY (pos_y p - moveStep)\<rparr>
      | DirOther \<Rightarrow> p)"

text \<open>
  The minimum-distance condition on a pair of prizes in the specification's words: on
  at least one axis the positions are at least the combined half sizes plus the buffer
  apart.
\<close>

definition separated :: "prize \<Rightarrow> prize \<Rightarrow> bool" where
  "separated p q =
     (\<bar>pos_x (prize_position p) - pos_x (prize_position q)\<bar>
        \<ge> (width (psize p) + width (psize q)) / 2 + 5 \<or>
      \<bar>pos_y (prize_position p) - pos_y (prize_position q)\<bar>
        \<ge> (width (psize p) + width (psize q)) / 2 + 5)"

text \<open>
  The field after \<open>n\<close> full passes over all pairs, with the index of the next draw,
  and the condition that every pair of the field is separated.
\<close>

fun after_passes :: "(nat \<Rightarrow> real) \<Rightarrow> nat \<Rightarrow> prize list \<Rightarrow> nat \<Rightarrow> prize list \<times> nat" where
  "after_passes rnd 0 ps k = (ps, k)"
| "after_passes rnd (Suc n) ps k =
     (case overlap_pass rnd ps k of (ps', hasOverlap, k') \<Rightarrow> after_passes rnd n ps' k')"

definition all_separated :: "prize list \<Rightarrow> bool" where
  "all_separated ps =
     list_all (\<lambda>j. list_all (\<lambda>i. separated (ps ! i) (ps ! j)) [0 ..< j]) [0 ..< length ps]"

section \<open>Example states\<close>

definition token_at :: "nat \<Rightarrow> real \<Rightarrow> real \<Rightarrow> prize" where
  "token_at n x y =
     \<lparr>prize_id = n, ptype = PointToken, prize_position = \<lparr>pos_x = x, pos_y = y\<rparr>,
      psize = prizeTypes_size PointToken, grabbed = False, collected = False\<rparr>"

definition far_prize :: prize where
  "far_prize =
     \<lparr>prize_id = 1, ptype = KuromiPlush, prize_position = \<lparr>pos_x = 10, pos_y = 0\<rparr>,
      psize = prizeTypes_size KuromiPlush, grabbed = False, collected = False\<rparr>"

definition near_prize :: prize where
  "near_prize =
     \<lparr>prize_id = 2, ptype = YellowCoin, prize_position = \<lparr>pos_x = 1, pos_y = 0\<rparr>,
      psize = prizeTypes_size YellowCoin, grabbed = False, collected = False\<rparr>"

definition example_field :: "prize list" where
  "example_field = [token_at 1 50 50, token_at 2 20 20]"

text \<open>A player who has won one point token at time 1000 and stands at home.\<close>

definition example_start :: machine where
  "example_start =
     (initial_machine example_field)\<lparr>gameState := run_events [EvCollectPrize 1000 PointToken 0]\<rparr>"

text \<open>The player grabs; the first timer of the sequence runs and the grab succeeds on prize 1.\<close>

definition example_holding :: machine where
  "example_holding = fire_next (Some 1) 0 (snd (grab example_start))"



text \<open>Or, from there, a drop, and then the rest of the grab sequence.\<close>

definition example_dropped :: machine where
  "example_dropped = snd (drop example_holding)"

definition example_after_drop :: machine where
  "example_after_drop =
     fire_next None 0.9 (fire_next None 0.9 (fire_next None 0.9 example_dropped))"

section \<open>Progression: coins, success rate, streak and combo\<close>

declare resolve_loop.simps [simp del]

lemma clamp_bounds:
  fixes lo hi v :: real
  assumes "lo \<le> hi"
  shows "lo \<le> max lo (min hi v) \<and> max lo (min hi v) \<le> hi"
  using assms by (auto simp: max_def min_def)

text \<open>
  For a prize type that \<open>successRates\<close> lists, the rate is a number between 0.3 and 0.9,
  whatever the streak and the coins.
\<close>

lemma getSuccessRate_configured_in_range:
  assumes "successRates ty = Some b"
  shows "\<exists>p. getSuccessRate ty g = Some p \<and> 0.3 \<le> p \<and> p \<le> 0.9"
proof -
  let ?v = "b + min (real_of_int (streak g) * 0.02) 0.1 - (if coins g < 2 then 0.05 else 0)"
  have "getSuccessRate ty g = Some (max 0.3 (min 0.9 ?v))"
    unfolding getSuccessRate_def Let_def using assms by (simp only: option.case)
  moreover have "(0.3::real) \<le> 0.9" by simp
  ultimately show ?thesis
    using clamp_bounds [of "0.3" "0.9" "?v"] by blast
qed

text \<open>
  C4. The success rate is claimed to lie in [0.3, 0.9] for every prize type. The prize
  field has four types, and \<open>successRates\<close> lists three: for \<open>purpleBall\<close> the base
  rate is \<open>undefined\<close> and \<open>getSuccessRate\<close> returns \<open>NaN\<close>, which is in no range.
  Here at the constructor's state (5 coins, streak 0).
\<close>

theorem getSuccessRate_purpleBall:
  "getSuccessRate PurpleBall initial_game_state = None"
  by (simp add: getSuccessRate_def successRates_def)

text \<open>
  C5. An accepted \<open>grab\<close> takes exactly one coin and counts one play; a rejected one
  leaves the whole state as it was; with no coins \<open>grab\<close> is rejected, and so is
  \<open>spendCoin\<close>, without any change.
\<close>

theorem grab_spends_one_coin:
  "(fst (grab m) \<longrightarrow>
      coins (gameState (snd (grab m))) = coins (gameState m) - 1 \<and>
      totalPlays (gameState (snd (grab m))) = totalPlays (gameState m) + 1) \<and>
   (\<not> fst (grab m) \<longrightarrow> snd (grab m) = m) \<and>
   (coins (gameState m) = 0 \<longrightarrow> grab m = (False, m)) \<and>
   (coins (gameState m) = 0 \<longrightarrow> spendCoin (gameState m) = (False, gameState m))"
  by (auto simp: grab_def spendCoin_def canPlay_def executeGrabSequence_def setTimeout_def
        setPlaying_def Let_def split: prod.splits if_splits)

text \<open>
  Witness of C5: with the 5 starting coins the grab is accepted and leaves 4 coins and
  1 play; with 0 coins it is rejected and nothing changes.
\<close>

theorem grab_spends_one_coin_witness:
  "fst (grab (initial_machine [])) \<and>
   coins (gameState (snd (grab (initial_machine [])))) = 4 \<and>
   totalPlays (gameState (snd (grab (initial_machine [])))) = 1 \<and>
   grab ((initial_machine [])\<lparr>gameState := initial_game_state\<lparr>coins := 0\<rparr>\<rparr>)
     = (False, (initial_machine [])\<lparr>gameState := initial_game_state\<lparr>coins := 0\<rparr>\<rparr>)"
proof -
  have a: "fst (grab (initial_machine []))"
    by (simp add: grab_def initial_machine_def initial_game_state_def canPlay_def spendCoin_def)
  have b: "coins (gameState (initial_machine [])) = 5"
    "totalPlays (gameState (initial_machine [])) = 0"
    by (simp_all add: initial_machine_def initial_game_state_def)
  have c: "coins (gameState ((initial_machine [])\<lparr>gameState := initial_game_state\<lparr>coins := 0\<rparr>\<rparr>)) = 0"
    by simp
  show ?thesis
    using grab_spends_one_coin [of "initial_machine []"] a b
      grab_spends_one_coin [of "(initial_machine [])\<lparr>gameState := initial_game_state\<lparr>coins := 0\<rparr>\<rparr>"] c
    by simp
qed

subsection \<open>Streak and combo\<close>

lemma streak_processPrizeReward [simp]: "streak (processPrizeReward ty r g) = streak g"
  by (cases ty) (simp_all add: processPrizeReward_def pointValues_def addPoints_def addCoins_def)

lemma combo_processPrizeReward [simp]: "combo (processPrizeReward ty r g) = combo g"
  by (cases ty) (simp_all add: processPrizeReward_def pointValues_def addPoints_def addCoins_def)

lemma lastWinTime_processPrizeReward [simp]:
  "lastWinTime (processPrizeReward ty r g) = lastWinTime g"
  by (cases ty) (simp_all add: processPrizeReward_def pointValues_def addPoints_def addCoins_def)











text \<open>
  C10. With no coins and a streak of at least 3 the check of the game loop adds 2
  coins, so that the balance is positive again; with coins left or a streak below 3
  it leaves the coins as they are.
\<close>

theorem checkSpecialConditions_coins:
  "(coins (gameState m) = 0 \<and> streak (gameState m) \<ge> 3 \<longrightarrow>
      coins (gameState (checkSpecialConditions r m)) = coins (gameState m) + 2 \<and>
      coins (gameState (checkSpecialConditions r m)) > 0) \<and>
   (coins (gameState m) > 0 \<or> streak (gameState m) < 3 \<longrightarrow>
      coins (gameState (checkSpecialConditions r m)) = coins (gameState m))"
  by (auto simp: checkSpecialConditions_def triggerComboSpecialEffect_def setTimeout_def
        addCoins_def Let_def)

text \<open>
  Witness of C10: from 0 coins and streak 3 the check leaves 2 coins; from the 5
  starting coins it leaves 5.
\<close>

theorem checkSpecialConditions_coins_witness:
  "coins (gameState ((initial_machine [])\<lparr>gameState := initial_game_state\<lparr>coins := 0, streak := 3\<rparr>\<rparr>)) = 0 \<and>
   coins (gameState (checkSpecialConditions 0.5
      ((initial_machine [])\<lparr>gameState := initial_game_state\<lparr>coins := 0, streak := 3\<rparr>\<rparr>))) = 2 \<and>
   coins (gameState (initial_machine [])) = 5 \<and>
   coins (gameState (checkSpecialConditions 0.5 (initial_machine []))) = 5"
proof -
  have a: "coins (gameState ((initial_machine [])\<lparr>gameState := initial_game_state\<lparr>coins := 0, streak := 3\<rparr>\<rparr>)) = 0"
    "streak (gameState ((initial_machine [])\<lparr>gameState := initial_game_state\<lparr>coins := 0, streak := 3\<rparr>\<rparr>)) = 3"
    by simp_all
  have b: "coins (gameState (initial_machine [])) = 5"
    by (simp add: initial_machine_def initial_game_state_def)
  show ?thesis
    using checkSpecialConditions_coins [of "(initial_machine [])\<lparr>gameState := initial_game_state\<lparr>coins := 0, streak := 3\<rparr>\<rparr>" "0.5"]
      checkSpecialConditions_coins [of "initial_machine []" "0.5"] a b
    by simp
qed

section \<open>The prize field\<close>

lemma in_reach_iff:
  "in_reach x y t p = (\<not> collected p \<and> \<not> grabbed p \<and> distance_to x y p \<le> t)"
  by (simp add: in_reach_def distance_to_def)

lemma distance_far: "distance_to 0 0 far_prize = 10"
  by (simp add: distance_to_def far_prize_def)

lemma distance_near: "distance_to 0 0 near_prize = 1"
  by (simp add: distance_to_def near_prize_def)

lemma far_prize_found:
  "getPrizeAtPosition 0 0 default_tolerance [far_prize, near_prize] = Some far_prize"
proof -
  have "in_reach 0 0 default_tolerance far_prize"
    unfolding in_reach_iff distance_far by (simp add: far_prize_def default_tolerance_def)
  then show ?thesis
    by (simp add: getPrizeAtPosition_def)
qed

text \<open>
  C2, as amended. The candidate is the first prize in array (insertion) order among
  the prizes that are neither collected nor grabbed and whose straight-line distance
  to the position is within the tolerance; there is none exactly when no prize
  qualifies. The distance decides who qualifies, not who is chosen.
\<close>

theorem getPrizeAtPosition_first_in_reach:
  "(getPrizeAtPosition x y t ps = None \<longleftrightarrow>
      (\<forall>p \<in> set ps. collected p \<or> grabbed p \<or> \<not> distance_to x y p \<le> t)) \<and>
   (getPrizeAtPosition x y t ps = Some p \<longleftrightarrow>
      (\<exists>i < length ps. ps ! i = p \<and>
         \<not> collected p \<and> \<not> grabbed p \<and> distance_to x y p \<le> t \<and>
         (\<forall>j < i. collected (ps ! j) \<or> grabbed (ps ! j) \<or> \<not> distance_to x y (ps ! j) \<le> t)))"
  unfolding getPrizeAtPosition_def find_None_iff find_Some_iff in_reach_iff
  by auto

text \<open>
  Counterexample to C2 as stated: of two free prizes at distances 10 and 1 from the
  grab position, both within the tolerance of 15, the one at distance 10 is chosen,
  because it comes first in the array.
\<close>

theorem getPrizeAtPosition_not_nearest:
  "getPrizeAtPosition 0 0 default_tolerance [far_prize, near_prize] = Some far_prize \<and>
   \<not> collected near_prize \<and> \<not> grabbed near_prize \<and>
   distance_to 0 0 near_prize \<le> default_tolerance \<and>
   distance_to 0 0 near_prize < distance_to 0 0 far_prize"
proof -
  have "\<not> collected near_prize \<and> \<not> grabbed near_prize"
    by (simp add: near_prize_def)
  with far_prize_found show ?thesis
    by (simp add: distance_far distance_near default_tolerance_def)
qed

text \<open>
  Witness of C2 as amended: on the same array the candidate is the prize at index 0,
  which is free and in reach.
\<close>

theorem getPrizeAtPosition_first_in_reach_witness:
  "getPrizeAtPosition 0 0 default_tolerance [far_prize, near_prize] = Some far_prize \<and>
   (\<exists>i < length [far_prize, near_prize]. [far_prize, near_prize] ! i = far_prize \<and>
      \<not> collected far_prize \<and> \<not> grabbed far_prize \<and>
      distance_to 0 0 far_prize \<le> default_tolerance)"
  using getPrizeAtPosition_first_in_reach
          [of 0 0 default_tolerance "[far_prize, near_prize]" far_prize]
        far_prize_found
  by blast

lemma scaled_draw:
  fixes r c m :: real
  assumes "0 \<le> r" "r < 1" "0 < c"
  shows "m \<le> m + r * c \<and> m + r * c < m + c"
  using assms by (simp add: mult_less_cancel_right2)

text \<open>
  C8, as amended. For every prize type, with draws in [0, 1), the position that
  \<open>getRandomPosition\<close> produces lies in [margin, boundary - size/2 - margin) on each
  axis: half the size is taken off the field, not the whole size. The boundary is
  the right edge (100) with the width for x, the bottom edge (85) with the height for
  y; the margin is 5.
\<close>

theorem getRandomPosition_range:
  assumes "0 \<le> rx" "rx < 1" "0 \<le> ry" "ry < 1"
  shows "margin \<le> pos_x (getRandomPosition (prizeTypes_size ty) rx ry) \<and>
         pos_x (getRandomPosition (prizeTypes_size ty) rx ry)
           < bnd_right - width (prizeTypes_size ty) / 2 - margin \<and>
         margin \<le> pos_y (getRandomPosition (prizeTypes_size ty) rx ry) \<and>
         pos_y (getRandomPosition (prizeTypes_size ty) rx ry)
           < bnd_bottom - height (prizeTypes_size ty) / 2 - margin"
proof -
  define cx where "cx = bnd_right - bnd_left - width (prizeTypes_size ty) / 2 - margin * 2"
  define cy where "cy = bnd_bottom - bnd_top - height (prizeTypes_size ty) / 2 - margin * 2"
  have "0 < cx" "0 < cy"
    unfolding cx_def cy_def
    by (cases ty; simp add: prizeTypes_size_def bnd_right_def bnd_left_def bnd_bottom_def
          bnd_top_def margin_def)+
  then have X: "margin \<le> margin + rx * cx \<and> margin + rx * cx < margin + cx"
    and Y: "margin \<le> margin + ry * cy \<and> margin + ry * cy < margin + cy"
    using assms by (simp_all only: scaled_draw)
  have px: "pos_x (getRandomPosition (prizeTypes_size ty) rx ry) = margin + rx * cx"
    and py: "pos_y (getRandomPosition (prizeTypes_size ty) rx ry) = margin + ry * cy"
    by (simp_all add: getRandomPosition_def cx_def cy_def)
  have bx: "bnd_right - width (prizeTypes_size ty) / 2 - margin = margin + cx"
    and bb: "bnd_bottom - height (prizeTypes_size ty) / 2 - margin = margin + cy"
    by (simp_all add: cx_def cy_def bnd_left_def bnd_top_def)
  show ?thesis
    unfolding px py bx bb using X Y by blast
qed

text \<open>
  Counterexample to C8 as stated: for a plush (size 45) and the draw 0.9 the x
  coordinate is 65.75, above boundary - size - margin = 100 - 45 - 5 = 50.
\<close>

theorem getRandomPosition_exceeds_claimed_bound:
  "\<not> pos_x (getRandomPosition (prizeTypes_size KuromiPlush) 0.9 0.9)
       \<le> bnd_right - width (prizeTypes_size KuromiPlush) - margin"
  by (simp add: getRandomPosition_def prizeTypes_size_def bnd_right_def bnd_left_def margin_def)

text \<open>
  Witness of C8 as amended: the same position, 65.75, is below
  100 - 45/2 - 5 = 72.5.
\<close>

theorem getRandomPosition_range_witness:
  "(0::real) \<le> 0.9 \<and> (0.9::real) < 1 \<and>
   pos_x (getRandomPosition (prizeTypes_size KuromiPlush) 0.9 0.9) = 65.75 \<and>
   pos_x (getRandomPosition (prizeTypes_size KuromiPlush) 0.9 0.9)
     < bnd_right - width (prizeTypes_size KuromiPlush) / 2 - margin"
proof -
  have h: "(0::real) \<le> 0.9" "(0.9::real) < 1" by simp_all
  have v: "pos_x (getRandomPosition (prizeTypes_size KuromiPlush) 0.9 0.9) = 65.75"
    by (simp add: getRandomPosition_def prizeTypes_size_def bnd_right_def bnd_left_def margin_def)
  show ?thesis
    using getRandomPosition_range [OF h h, of KuromiPlush] h v by blast
qed

subsection \<open>Overlap resolution\<close>

lemma not_checkOverlap_iff: "(\<not> checkOverlap p q) = separated p q"
  by (auto simp: checkOverlap_def separated_def Let_def)

text \<open>A step, an inner loop or a pass that leaves the flag down has changed nothing.\<close>

lemma overlap_step_clean:
  assumes "overlap_step rnd i j (ps, h, k) = (ps', False, k')"
  shows "ps' = ps \<and> \<not> h \<and> k' = k \<and> \<not> checkOverlap (ps ! i) (ps ! j)"
  using assms by (auto simp: overlap_step_def split: if_splits)

lemma fold_overlap_step_clean:
  assumes "fold (overlap_step rnd i) js (ps, h, k) = (ps', False, k')"
  shows "ps' = ps \<and> \<not> h \<and> k' = k \<and> (\<forall>j \<in> set js. \<not> checkOverlap (ps ! i) (ps ! j))"
  using assms
proof (induction js arbitrary: ps h k)
  case Nil
  then show ?case by simp
next
  case (Cons j js)
  obtain ps1 h1 k1 where s: "overlap_step rnd i j (ps, h, k) = (ps1, h1, k1)"
    by (cases "overlap_step rnd i j (ps, h, k)") auto
  with Cons.prems have "fold (overlap_step rnd i) js (ps1, h1, k1) = (ps', False, k')"
    by simp
  from Cons.IH [OF this]
  have r: "ps' = ps1" "\<not> h1" "k' = k1" "\<forall>j \<in> set js. \<not> checkOverlap (ps1 ! i) (ps1 ! j)"
    by auto
  from s r(2) have "overlap_step rnd i j (ps, h, k) = (ps1, False, k1)" by simp
  from overlap_step_clean [OF this] r show ?case by simp
qed

lemma overlap_inner_clean:
  assumes "overlap_inner rnd i (ps, h, k) = (ps', False, k')"
  shows "ps' = ps \<and> \<not> h \<and> k' = k \<and>
         (\<forall>j. i < j \<and> j < length ps \<longrightarrow> \<not> checkOverlap (ps ! i) (ps ! j))"
  using fold_overlap_step_clean [of rnd i "[i + 1 ..< length ps]" ps h k ps' k'] assms
  by (simp add: overlap_inner_def)

lemma fold_overlap_inner_clean:
  assumes "fold (overlap_inner rnd) is (ps, h, k) = (ps', False, k')"
  shows "ps' = ps \<and> \<not> h \<and> k' = k \<and>
         (\<forall>i \<in> set is. \<forall>j. i < j \<and> j < length ps \<longrightarrow> \<not> checkOverlap (ps ! i) (ps ! j))"
  using assms
proof (induction "is" arbitrary: ps h k)
  case Nil
  then show ?case by simp
next
  case (Cons i "is")
  obtain ps1 h1 k1 where s: "overlap_inner rnd i (ps, h, k) = (ps1, h1, k1)"
    by (cases "overlap_inner rnd i (ps, h, k)") auto
  with Cons.prems have "fold (overlap_inner rnd) is (ps1, h1, k1) = (ps', False, k')"
    by simp
  from Cons.IH [OF this]
  have r: "ps' = ps1" "\<not> h1" "k' = k1"
    "\<forall>i \<in> set is. \<forall>j. i < j \<and> j < length ps1 \<longrightarrow> \<not> checkOverlap (ps1 ! i) (ps1 ! j)"
    by auto
  from s r(2) have "overlap_inner rnd i (ps, h, k) = (ps1, False, k1)" by simp
  from overlap_inner_clean [OF this] r show ?case by simp
qed

lemma overlap_pass_clean:
  assumes "overlap_pass rnd ps k = (ps', False, k')"
  shows "ps' = ps \<and> k' = k \<and>
         (\<forall>i j. i < j \<and> j < length ps \<longrightarrow> \<not> checkOverlap (ps ! i) (ps ! j))"
  using fold_overlap_inner_clean [of rnd "[0 ..< length ps]" ps False k ps' k'] assms
  by (auto simp: overlap_pass_def)

text \<open>Conversely, with no overlapping pair a pass changes nothing.\<close>

lemma fold_overlap_step_id:
  assumes "\<forall>j \<in> set js. \<not> checkOverlap (ps ! i) (ps ! j)"
  shows "fold (overlap_step rnd i) js (ps, h, k) = (ps, h, k)"
  using assms by (induction js) (simp_all add: overlap_step_def)

lemma fold_overlap_inner_id:
  assumes "\<forall>i \<in> set is. \<forall>j. i < j \<and> j < length ps \<longrightarrow> \<not> checkOverlap (ps ! i) (ps ! j)"
  shows "fold (overlap_inner rnd) is (ps, h, k) = (ps, h, k)"
  using assms
  by (induction "is") (simp_all add: overlap_inner_def fold_overlap_step_id)

lemma overlap_pass_id:
  assumes "\<forall>i j. i < j \<and> j < length ps \<longrightarrow> \<not> checkOverlap (ps ! i) (ps ! j)"
  shows "overlap_pass rnd ps k = (ps, False, k)"
  unfolding overlap_pass_def using assms by (intro fold_overlap_inner_id) blast

lemma resolve_loop_result:
  assumes "resolve_loop rnd attempts ps k = (ps', attempts', k')"
  shows "attempts \<le> attempts' \<and>
         (attempts \<le> maxAttempts \<longrightarrow> attempts' \<le> maxAttempts) \<and>
         (attempts' < maxAttempts \<longrightarrow>
            (\<forall>i j. i < j \<and> j < length ps' \<longrightarrow> \<not> checkOverlap (ps' ! i) (ps' ! j)))"
  using assms
proof (induction rnd attempts ps k rule: resolve_loop.induct)
  case (1 rnd attempts ps k)
  show ?case
  proof (cases "attempts < maxAttempts")
    case False
    with "1.prems" show ?thesis
      by (simp add: resolve_loop.simps [of rnd attempts ps k])
  next
    case True
    obtain ps1 h1 k1 where p: "overlap_pass rnd ps k = (ps1, h1, k1)"
      by (cases "overlap_pass rnd ps k") auto
    show ?thesis
    proof (cases h1)
      case False
      with True p "1.prems" have e: "ps' = ps1" "attempts' = attempts" "k' = k1"
        by (simp_all add: resolve_loop.simps [of rnd attempts ps k])
      from p False have "overlap_pass rnd ps k = (ps1, False, k1)" by simp
      from overlap_pass_clean [OF this] e True show ?thesis by simp
    next
      case h: True
      with True p "1.prems"
      have "resolve_loop rnd (attempts + 1) ps1 k1 = (ps', attempts', k')"
        by (simp add: resolve_loop.simps [of rnd attempts ps k])
      from "1.IH" [OF True p [symmetric] refl _ this] h True show ?thesis
        by simp
    qed
  qed
qed

lemma all_separated_iff:
  "all_separated ps = (\<forall>i j. i < j \<and> j < length ps \<longrightarrow> separated (ps ! i) (ps ! j))"
  by (auto simp: all_separated_def list_all_iff)

lemma overlap_pass_dirty:
  assumes "overlap_pass rnd ps k = (ps', True, k')"
  shows "\<not> all_separated ps"
proof
  assume "all_separated ps"
  then have "overlap_pass rnd ps k = (ps, False, k)"
    by (intro overlap_pass_id) (simp add: all_separated_iff not_checkOverlap_iff)
  with assms show False by simp
qed

lemma resolve_loop_passes:
  assumes "resolve_loop rnd attempts ps k = (ps', attempts', k')"
  shows "after_passes rnd (attempts' - attempts) ps k = (ps', k') \<and>
         (\<forall>n < attempts' - attempts. \<not> all_separated (fst (after_passes rnd n ps k)))"
  using assms
proof (induction rnd attempts ps k rule: resolve_loop.induct)
  case (1 rnd attempts ps k)
  show ?case
  proof (cases "attempts < maxAttempts")
    case False
    with "1.prems" show ?thesis
      by (simp add: resolve_loop.simps [of rnd attempts ps k])
  next
    case True
    obtain ps1 h1 k1 where p: "overlap_pass rnd ps k = (ps1, h1, k1)"
      by (cases "overlap_pass rnd ps k") auto
    show ?thesis
    proof (cases h1)
      case False
      with True p "1.prems" have e: "ps' = ps1" "attempts' = attempts" "k' = k1"
        by (simp_all add: resolve_loop.simps [of rnd attempts ps k])
      from p False have "overlap_pass rnd ps k = (ps1, False, k1)" by simp
      from overlap_pass_clean [OF this] e show ?thesis by simp
    next
      case h: True
      with True p "1.prems"
      have r: "resolve_loop rnd (attempts + 1) ps1 k1 = (ps', attempts', k')"
        by (simp add: resolve_loop.simps [of rnd attempts ps k])
      from resolve_loop_result [OF r] have le: "attempts + 1 \<le> attempts'" by simp
      then obtain d where d: "attempts' - attempts = Suc d" "attempts' - (attempts + 1) = d"
        by (metis Suc_diff_Suc Suc_eq_plus1 Suc_le_lessD diff_diff_left)
      from "1.IH" [OF True p [symmetric] refl _ r] h
      have ih: "after_passes rnd d ps1 k1 = (ps', k')"
        "\<forall>n < d. \<not> all_separated (fst (after_passes rnd n ps1 k1))"
        unfolding d by simp_all
      from p h have dirty: "\<not> all_separated ps"
        using overlap_pass_dirty by simp
      have "\<not> all_separated (fst (after_passes rnd n ps k))" if "n < Suc d" for n
      proof (cases n)
        case 0
        with dirty show ?thesis by simp
      next
        case (Suc n')
        with that ih(2) p show ?thesis by simp
      qed
      with ih(1) p show ?thesis unfolding d by simp
    qed
  qed
qed

lemma after_passes_clean:
  assumes "all_separated ps"
  shows "after_passes rnd n ps k = (ps, k)"
proof (induction n)
  case 0
  show ?case by simp
next
  case (Suc n)
  from assms have "overlap_pass rnd ps k = (ps, False, k)"
    by (intro overlap_pass_id) (simp add: all_separated_iff not_checkOverlap_iff)
  with Suc show ?case by simp
qed

lemma after_passes_add:
  "after_passes rnd (a + b) ps k =
     (case after_passes rnd a ps k of (ps1, k1) \<Rightarrow> after_passes rnd b ps1 k1)"
proof (induction a arbitrary: ps k)
  case 0
  show ?case by simp
next
  case (Suc a)
  obtain ps1 h1 k1 where p: "overlap_pass rnd ps k = (ps1, h1, k1)"
    by (cases "overlap_pass rnd ps k") auto
  with Suc [of ps1 k1] show ?case by simp
qed

text \<open>
  C9. When \<open>resolveOverlaps\<close> returns, either every pair of prizes is apart by at least
  the combined half sizes plus the buffer on at least one axis, or the 50 attempts are
  used up; never more than 50 are counted. The loop stops as soon as a full pass finds
  no overlap: the result is the field after exactly \<open>attempts\<close> passes, every pass
  before that started on a field with an overlapping pair, and once the field is free
  of overlaps after fewer than 50 passes the loop has stopped by then, with that
  field; on a field without overlap it returns at once, with no attempt counted, no
  draw taken and the field unchanged. The distance is the one \<open>checkOverlap\<close>
  measures, between the positions of the two prizes, with the widths as sizes on both
  axes.
\<close>

theorem resolveOverlaps_separated:
  assumes "resolveOverlaps rnd ps k = (ps', attempts, k')"
  shows "((\<forall>i j. i < j \<and> j < length ps' \<longrightarrow> separated (ps' ! i) (ps' ! j)) \<or>
          attempts = maxAttempts) \<and>
         attempts \<le> maxAttempts \<and>
         after_passes rnd attempts ps k = (ps', k') \<and>
         (\<forall>n < attempts. \<not> all_separated (fst (after_passes rnd n ps k))) \<and>
         (\<forall>n < maxAttempts. all_separated (fst (after_passes rnd n ps k)) \<longrightarrow>
            attempts \<le> n \<and> after_passes rnd n ps k = (ps', k')) \<and>
         ((\<forall>i j. i < j \<and> j < length ps \<longrightarrow> separated (ps ! i) (ps ! j)) \<longrightarrow>
            ps' = ps \<and> attempts = 0 \<and> k' = k)"
proof -
  from assms have r: "resolve_loop rnd 0 ps k = (ps', attempts, k')"
    by (simp add: resolveOverlaps_def)
  note res = resolve_loop_result [OF r, unfolded not_checkOverlap_iff]
  from resolve_loop_passes [OF r]
  have run: "after_passes rnd attempts ps k = (ps', k')"
    and dirty: "\<forall>n < attempts. \<not> all_separated (fst (after_passes rnd n ps k))"
    by simp_all
  have sep: "(\<forall>i j. i < j \<and> j < length ps' \<longrightarrow> separated (ps' ! i) (ps' ! j)) \<or>
      attempts = maxAttempts"
    and le: "attempts \<le> maxAttempts"
    using res by (auto simp: order_le_less)
  have soon: "attempts \<le> n \<and> after_passes rnd n ps k = (ps', k')"
    if n: "n < maxAttempts" and c: "all_separated (fst (after_passes rnd n ps k))" for n
  proof -
    from dirty c have an: "attempts \<le> n"
      by (meson not_le_imp_less)
    with n have "attempts < maxAttempts" by simp
    with res have "all_separated ps'"
      by (simp add: all_separated_iff)
    then have "after_passes rnd (n - attempts) ps' k' = (ps', k')"
      by (rule after_passes_clean)
    with after_passes_add [of rnd attempts "n - attempts" ps k] run an
    show ?thesis by simp
  qed
  have early: "ps' = ps \<and> attempts = 0 \<and> k' = k"
    if "\<forall>i j. i < j \<and> j < length ps \<longrightarrow> separated (ps ! i) (ps ! j)"
  proof -
    from that have "all_separated (fst (after_passes rnd 0 ps k))"
      by (simp add: all_separated_iff)
    moreover have "0 < maxAttempts" by (simp add: maxAttempts_def)
    ultimately have "attempts \<le> 0 \<and> after_passes rnd 0 ps k = (ps', k')"
      using soon by blast
    then show ?thesis by simp
  qed
  from sep le run dirty soon early show ?thesis
    by blast
qed

text \<open>
  Two tokens on the same spot, every draw 0.9: the first pass moves the second token
  to (72.5, 59), the second pass finds no overlap.
\<close>

lemma example_pass1:
  "overlap_pass (\<lambda>n. 0.9) [token_at 1 10 10, token_at 2 10 10] 0
     = ([token_at 1 10 10, token_at 2 72.5 59], True, 2)"
  by (simp add: overlap_pass_def overlap_inner_def overlap_step_def checkOverlap_def
        token_at_def prizeTypes_size_def getRandomPosition_def bnd_right_def bnd_left_def
        bnd_bottom_def bnd_top_def margin_def upt_rec numeral_2_eq_2)

lemma example_pass2:
  "overlap_pass (\<lambda>n. 0.9) [token_at 1 10 10, token_at 2 72.5 59] 2
     = ([token_at 1 10 10, token_at 2 72.5 59], False, 2)"
  by (simp add: overlap_pass_def overlap_inner_def overlap_step_def checkOverlap_def
        token_at_def prizeTypes_size_def upt_rec numeral_2_eq_2)

lemma example_resolve:
  "resolveOverlaps (\<lambda>n. 0.9) [token_at 1 10 10, token_at 2 10 10] 0
     = ([token_at 1 10 10, token_at 2 72.5 59], 1, 2)"
proof -
  have second: "resolve_loop (\<lambda>n. 0.9) (0 + 1) [token_at 1 10 10, token_at 2 72.5 59] 2
      = ([token_at 1 10 10, token_at 2 72.5 59], 1, 2)"
    by (subst resolve_loop.simps) (simp only: example_pass2 prod.case, simp add: maxAttempts_def)
  show ?thesis
    unfolding resolveOverlaps_def
    by (subst resolve_loop.simps)
       (simp only: example_pass1 prod.case second, simp add: maxAttempts_def)
qed

text \<open>
  Witness of C9: that run starts on a field with an overlap, returns after 1 attempt,
  short of 50, with the field after one pass, and its two tokens are apart.
\<close>

theorem resolveOverlaps_separated_witness:
  "resolveOverlaps (\<lambda>n. 0.9) [token_at 1 10 10, token_at 2 10 10] 0
     = ([token_at 1 10 10, token_at 2 72.5 59], 1, 2) \<and>
   (1::nat) \<noteq> maxAttempts \<and> (0::nat) < 1 \<and>
   separated (token_at 1 10 10) (token_at 2 72.5 59) \<and>
   \<not> all_separated [token_at 1 10 10, token_at 2 10 10] \<and>
   after_passes (\<lambda>n. 0.9) 1 [token_at 1 10 10, token_at 2 10 10] 0
     = ([token_at 1 10 10, token_at 2 72.5 59], 2) \<and>
   all_separated [token_at 1 10 10, token_at 2 72.5 59]"
proof -
  note T = resolveOverlaps_separated [OF example_resolve]
  have ne: "(1::nat) \<noteq> maxAttempts" "(1::nat) < maxAttempts"
    by (simp_all add: maxAttempts_def)
  with T
  have all: "\<forall>i j. i < j \<and> j < length [token_at 1 10 10, token_at 2 72.5 59] \<longrightarrow>
          separated ([token_at 1 10 10, token_at 2 72.5 59] ! i)
            ([token_at 1 10 10, token_at 2 72.5 59] ! j)"
    by blast
  then have s: "separated ([token_at 1 10 10, token_at 2 72.5 59] ! 0)
            ([token_at 1 10 10, token_at 2 72.5 59] ! 1)"
    by (metis One_nat_def length_Cons lessI list.size(3))
  from all have c: "all_separated [token_at 1 10 10, token_at 2 72.5 59]"
    by (simp only: all_separated_iff)
  from T have "\<not> all_separated (fst (after_passes (\<lambda>n. 0.9) 0 [token_at 1 10 10, token_at 2 10 10] 0))"
    by (metis zero_less_one)
  then have d: "\<not> all_separated [token_at 1 10 10, token_at 2 10 10]"
    by simp
  from T have a: "after_passes (\<lambda>n. 0.9) 1 [token_at 1 10 10, token_at 2 10 10] 0
     = ([token_at 1 10 10, token_at 2 72.5 59], 2)"
    by blast
  from example_resolve ne(1) s c d a show ?thesis
    by simp
qed

section \<open>The claw\<close>

subsection \<open>Movement\<close>

lemma move_newPosition:
  assumes "within_boundary p"
  shows "(case d of
            DirLeft \<Rightarrow> p\<lparr>pos_x := max minX (pos_x p - moveStep)\<rparr>
          | DirRight \<Rightarrow> p\<lparr>pos_x := min maxX (pos_x p + moveStep)\<rparr>
          | DirForward \<Rightarrow> p\<lparr>pos_y := min maxY (pos_y p + moveStep)\<rparr>
          | DirBack \<Rightarrow> p\<lparr>pos_y := max minY (pos_y p - moveStep)\<rparr>
          | DirOther \<Rightarrow> p) = spec_move_target d p"
  using assms
  by (cases d)
     (auto simp: spec_move_target_def clamp_def within_boundary_def minX_def maxX_def
        minY_def maxY_def moveStep_def max_def min_def)

lemma spec_move_target_within:
  "within_boundary p \<Longrightarrow> within_boundary (spec_move_target d p)"
  by (cases d)
     (auto simp: spec_move_target_def clamp_def within_boundary_def minX_def maxX_def
        minY_def maxY_def moveStep_def max_def min_def)

lemma spec_move_target_one_axis:
  "pos_x (spec_move_target d p) = pos_x p \<or> pos_y (spec_move_target d p) = pos_y p"
  by (cases d) (simp_all add: spec_move_target_def)

lemma move_unfold:
  assumes "within_boundary (claw_position m)"
  shows "move d m =
     (if isMoving m \<or> isGrabbing m \<or> \<not> canPlay (gameState m) then (False, m)
      else if spec_move_target d (claw_position m) = claw_position m then (False, m)
      else (True, animateMovement (spec_move_target d (claw_position m)) m))"
proof -
  have eq: "(pos_x q = pos_x p \<and> pos_y q = pos_y p) = (q = p)" for p q :: position
    by (cases p, cases q) auto
  show ?thesis
    unfolding move_def Let_def move_newPosition [OF assms] eq by simp
qed

lemma claw_position_animateMovement: "claw_position (animateMovement p m) = p"
  by (simp add: animateMovement_def setTimeout_def Let_def)

lemma spec_move_target_moves_iff:
  assumes "within_boundary p"
  shows "(spec_move_target d p \<noteq> p) =
           ((d = DirLeft \<and> minX < pos_x p) \<or> (d = DirRight \<and> pos_x p < maxX) \<or>
            (d = DirForward \<and> pos_y p < maxY) \<or> (d = DirBack \<and> minY < pos_y p))"
proof -
  have eq: "(q = p) = (pos_x q = pos_x p \<and> pos_y q = pos_y p)" for q :: position
    by (cases p, cases q) auto
  show ?thesis
    using assms unfolding eq
    by (cases d)
       (auto simp: spec_move_target_def clamp_def within_boundary_def minX_def maxX_def
          minY_def maxY_def moveStep_def max_def min_def)
qed

text \<open>
  C7. From a position within the movement boundary, for every direction: the position
  after \<open>move\<close> is within the boundary on both axes. The move is accepted exactly when
  the claw is idle, the player can play and the fixed step along the one axis of the
  direction, clamped to the boundary on that axis, leads to a different position, that
  is, when there is room on the side of the direction; an accepted move puts the claw
  at that clamped target; at most one coordinate changes; a rejected move changes
  nothing; and when the clamped target is the current position \<open>move\<close> returns false
  with the state unchanged.
\<close>

theorem move_within_boundary:
  assumes "within_boundary (claw_position m)"
  shows "within_boundary (claw_position (snd (move d m))) \<and>
         (fst (move d m) \<longleftrightarrow>
            \<not> isMoving m \<and> \<not> isGrabbing m \<and> canPlay (gameState m) \<and>
            spec_move_target d (claw_position m) \<noteq> claw_position m) \<and>
         (fst (move d m) \<longleftrightarrow>
            \<not> isMoving m \<and> \<not> isGrabbing m \<and> canPlay (gameState m) \<and>
            ((d = DirLeft \<and> minX < pos_x (claw_position m)) \<or>
             (d = DirRight \<and> pos_x (claw_position m) < maxX) \<or>
             (d = DirForward \<and> pos_y (claw_position m) < maxY) \<or>
             (d = DirBack \<and> minY < pos_y (claw_position m)))) \<and>
         (fst (move d m) \<longrightarrow>
            claw_position (snd (move d m)) = spec_move_target d (claw_position m) \<and>
            claw_position (snd (move d m)) \<noteq> claw_position m) \<and>
         (\<not> fst (move d m) \<longrightarrow> snd (move d m) = m) \<and>
         (pos_x (claw_position (snd (move d m))) = pos_x (claw_position m) \<or>
          pos_y (claw_position (snd (move d m))) = pos_y (claw_position m)) \<and>
         (spec_move_target d (claw_position m) = claw_position m \<longrightarrow>
            move d m = (False, m))"
proof -
  have acc: "fst (move d m) =
      (\<not> isMoving m \<and> \<not> isGrabbing m \<and> canPlay (gameState m) \<and>
       spec_move_target d (claw_position m) \<noteq> claw_position m)"
    by (simp add: move_unfold [OF assms])
  have rest: "within_boundary (claw_position (snd (move d m))) \<and>
         (fst (move d m) \<longrightarrow>
            claw_position (snd (move d m)) = spec_move_target d (claw_position m) \<and>
            claw_position (snd (move d m)) \<noteq> claw_position m) \<and>
         (\<not> fst (move d m) \<longrightarrow> snd (move d m) = m) \<and>
         (pos_x (claw_position (snd (move d m))) = pos_x (claw_position m) \<or>
          pos_y (claw_position (snd (move d m))) = pos_y (claw_position m)) \<and>
         (spec_move_target d (claw_position m) = claw_position m \<longrightarrow>
            move d m = (False, m))"
    using assms spec_move_target_within [OF assms, of d]
      spec_move_target_one_axis [of d "claw_position m"]
    by (simp add: move_unfold [OF assms] claw_position_animateMovement)
  from acc have acc2: "fst (move d m) =
      (\<not> isMoving m \<and> \<not> isGrabbing m \<and> canPlay (gameState m) \<and>
            ((d = DirLeft \<and> minX < pos_x (claw_position m)) \<or>
             (d = DirRight \<and> pos_x (claw_position m) < maxX) \<or>
             (d = DirForward \<and> pos_y (claw_position m) < maxY) \<or>
             (d = DirBack \<and> minY < pos_y (claw_position m))))"
    unfolding spec_move_target_moves_iff [OF assms] .
  from acc acc2 rest show ?thesis by blast
qed

lemma home_idle:
  "within_boundary (claw_position (initial_machine []))"
  "\<not> isMoving (initial_machine [])" "\<not> isGrabbing (initial_machine [])"
  "canPlay (gameState (initial_machine []))"
  "claw_position (initial_machine []) = \<lparr>pos_x = 50, pos_y = 50\<rparr>"
  by (simp_all add: within_boundary_def initial_machine_def initial_game_state_def canPlay_def
        minX_def maxX_def minY_def maxY_def)

lemma home_targets:
  "spec_move_target DirLeft \<lparr>pos_x = 50, pos_y = 50\<rparr> = \<lparr>pos_x = 42, pos_y = 50\<rparr>"
  "spec_move_target DirRight \<lparr>pos_x = 50, pos_y = 50\<rparr> = \<lparr>pos_x = 58, pos_y = 50\<rparr>"
  "spec_move_target DirForward \<lparr>pos_x = 50, pos_y = 50\<rparr> = \<lparr>pos_x = 50, pos_y = 58\<rparr>"
  "spec_move_target DirBack \<lparr>pos_x = 50, pos_y = 50\<rparr> = \<lparr>pos_x = 50, pos_y = 42\<rparr>"
  by (simp_all add: spec_move_target_def clamp_def minX_def maxX_def minY_def maxY_def
        moveStep_def)

text \<open>
  Witness of C7: from home (50, 50), idle with 5 coins, the move is accepted in each of
  the four directions and leads to (42, 50), (58, 50), (50, 58) and (50, 42).
\<close>

theorem move_within_boundary_witness:
  "within_boundary (claw_position (initial_machine [])) \<and>
   fst (move DirLeft (initial_machine [])) \<and>
   claw_position (snd (move DirLeft (initial_machine []))) = \<lparr>pos_x = 42, pos_y = 50\<rparr> \<and>
   fst (move DirRight (initial_machine [])) \<and>
   claw_position (snd (move DirRight (initial_machine []))) = \<lparr>pos_x = 58, pos_y = 50\<rparr> \<and>
   fst (move DirForward (initial_machine [])) \<and>
   claw_position (snd (move DirForward (initial_machine []))) = \<lparr>pos_x = 50, pos_y = 58\<rparr> \<and>
   fst (move DirBack (initial_machine [])) \<and>
   claw_position (snd (move DirBack (initial_machine []))) = \<lparr>pos_x = 50, pos_y = 42\<rparr> \<and>
   within_boundary (claw_position (snd (move DirLeft (initial_machine []))))"
proof -
  have room: "minX < pos_x (claw_position (initial_machine []))"
    "pos_x (claw_position (initial_machine [])) < maxX"
    "minY < pos_y (claw_position (initial_machine []))"
    "pos_y (claw_position (initial_machine [])) < maxY"
    by (simp_all add: home_idle(5) minX_def maxX_def minY_def maxY_def)
  note t = home_targets [folded home_idle(5)]
  show ?thesis
    using move_within_boundary [OF home_idle(1), of DirLeft]
      move_within_boundary [OF home_idle(1), of DirRight]
      move_within_boundary [OF home_idle(1), of DirForward]
      move_within_boundary [OF home_idle(1), of DirBack]
      home_idle(1-4) room t
    by metis
qed

subsection \<open>The example run\<close>

lemmas model_defs =
  run_events_def collectPrize_def processPrizeReward_def pointValues_def baseRewardOf_def
  addPoints_def addCoins_def comboTimeout_def maxStreak_def initial_game_state_def
  initial_machine_def grab_def canPlay_def spendCoin_def setPlaying_def
  executeGrabSequence_def setTimeout_def grabSequenceTime_def fire_next_def
  run_callback_def attemptGrab_def returnClaw_def animateReturn_def
  completeGrabSequence_def missedGrab_def resetToHome_def updateClawPosition_def
  emergencyStop_def drop_def dropPrize_def Let_def

lemma example_start_val:
  "example_start =
     \<lparr>gameState = \<lparr>coins = 5, points = 10, streak = 1, totalPlays = 0,
        gs_prizes = [\<lparr>cp_type = PointToken, cp_timestamp = 1000, cp_combo = 1\<rparr>],
        isPlaying = False, clawPosition = \<lparr>pos_x = 50, pos_y = 50\<rparr>,
        gameStarted = False, combo = 1, lastWinTime = 1000\<rparr>,
      prizes = example_field,
      claw_position = \<lparr>pos_x = 50, pos_y = 50\<rparr>, homePosition = \<lparr>pos_x = 50, pos_y = 50\<rparr>,
      isMoving = False, isGrabbing = False, grabbedPrize = None,
      moveSpeed = 500, now_ms = 0, timers = []\<rparr>"
  by (simp add: example_start_def model_defs)

lemma example_holding_val:
  "example_holding =
     \<lparr>gameState = \<lparr>coins = 4, points = 10, streak = 1, totalPlays = 1,
        gs_prizes = [\<lparr>cp_type = PointToken, cp_timestamp = 1000, cp_combo = 1\<rparr>],
        isPlaying = True, clawPosition = \<lparr>pos_x = 50, pos_y = 50\<rparr>,
        gameStarted = True, combo = 1, lastWinTime = 1000\<rparr>,
      prizes = example_field,
      claw_position = \<lparr>pos_x = 50, pos_y = 50\<rparr>, homePosition = \<lparr>pos_x = 50, pos_y = 50\<rparr>,
      isMoving = False, isGrabbing = True, grabbedPrize = Some 1,
      moveSpeed = 500, now_ms = 1000,
      timers = [(1500, ClawUpCb), (2000, ReturnClawCb), (2500, CompleteCb)]\<rparr>"
  by (simp add: example_holding_def example_start_val model_defs)




lemma example_after_drop_val:
  "example_after_drop =
     \<lparr>gameState = \<lparr>coins = 4, points = 10, streak = 0, totalPlays = 1,
        gs_prizes = [\<lparr>cp_type = PointToken, cp_timestamp = 1000, cp_combo = 1\<rparr>],
        isPlaying = False, clawPosition = \<lparr>pos_x = 50, pos_y = 50\<rparr>,
        gameStarted = True, combo = 0, lastWinTime = 1000\<rparr>,
      prizes = example_field,
      claw_position = \<lparr>pos_x = 50, pos_y = 50\<rparr>, homePosition = \<lparr>pos_x = 50, pos_y = 50\<rparr>,
      isMoving = False, isGrabbing = False, grabbedPrize = None,
      moveSpeed = 500, now_ms = 2500,
      timers = [(3500, ResetHomeCb)]\<rparr>"
  by (simp add: example_after_drop_def example_dropped_def example_holding_val model_defs
        example_field_def token_at_def)

subsection \<open>Emergency stop and drop\<close>

lemma collected_dropPrize: "map collected (dropPrize pid pos ps) = map collected ps"
  by (induction ps) (simp_all add: dropPrize_def)

lemma released_dropPrize:
  assumes "p \<in> set (dropPrize pid pos ps)" and "prize_id p = pid"
  shows "\<not> grabbed p \<and> prize_position p = pos"
proof -
  from assms(1) obtain q
    where q: "p = (if prize_id q = pid then q\<lparr>grabbed := False, prize_position := pos\<rparr> else q)"
    unfolding dropPrize_def by (auto simp only: set_map)
  show ?thesis
  proof (cases "prize_id q = pid")
    case True
    with q show ?thesis by simp
  next
    case False
    with q assms(2) show ?thesis by simp
  qed
qed

lemma gameState_setPlaying_False:
  "setPlaying False g = g\<lparr>isPlaying := False\<rparr>"
  by (simp add: setPlaying_def Let_def)







text \<open>
  C6, as amended. With a prize held, \<open>drop\<close> returns true and releases the prize at
  the claw's position, not grabbed, no \<open>collected\<close> flag changed; it leaves the
  progression state, the grabbing flag and the timers as they are, so no points are
  awarded by the drop. The grab sequence goes on, and its completion, finding no
  prize held, records a miss: streak and combo become 0 and the consolation draw
  adds 5 points when it is below 0.3; coins and collection are unchanged, so no win
  is recorded.
\<close>

theorem drop_then_complete:
  assumes "grabbedPrize m = Some pid"
  shows "fst (drop m) \<and>
         grabbedPrize (snd (drop m)) = None \<and>
         gameState (snd (drop m)) = gameState m \<and>
         isGrabbing (snd (drop m)) = isGrabbing m \<and>
         timers (snd (drop m)) = timers m \<and>
         map collected (prizes (snd (drop m))) = map collected (prizes m) \<and>
         (\<forall>p \<in> set (prizes (snd (drop m))).
            prize_id p = pid \<longrightarrow> \<not> grabbed p \<and> prize_position p = claw_position m) \<and>
         streak (gameState (completeGrabSequence r (snd (drop m)))) = 0 \<and>
         combo (gameState (completeGrabSequence r (snd (drop m)))) = 0 \<and>
         points (gameState (completeGrabSequence r (snd (drop m))))
           = points (gameState m) + (if r < 0.3 then 5 else 0) \<and>
         coins (gameState (completeGrabSequence r (snd (drop m)))) = coins (gameState m) \<and>
         gs_prizes (gameState (completeGrabSequence r (snd (drop m)))) = gs_prizes (gameState m)"
proof -
  let ?m = "m\<lparr>prizes := dropPrize pid (claw_position m) (prizes m), grabbedPrize := None\<rparr>"
  have d: "drop m = (True, ?m)"
    using assms by (simp add: drop_def)
  have g: "gameState (completeGrabSequence r ?m)
             = missedGrab r ((gameState m)\<lparr>isPlaying := False\<rparr>)"
    by (simp add: completeGrabSequence_def setTimeout_def gameState_setPlaying_False Let_def)
  have miss: "streak (missedGrab r g0) = 0 \<and> combo (missedGrab r g0) = 0 \<and>
      points (missedGrab r g0) = points g0 + (if r < 0.3 then 5 else 0) \<and>
      coins (missedGrab r g0) = coins g0 \<and> gs_prizes (missedGrab r g0) = gs_prizes g0" for g0
    by (simp add: missedGrab_def addPoints_def Let_def)
  have rel: "\<not> grabbed p \<and> prize_position p = claw_position m"
    if "p \<in> set (prizes ?m)" "prize_id p = pid" for p
    using that released_dropPrize [of p pid "claw_position m" "prizes m"] by simp
  have col: "map collected (prizes ?m) = map collected (prizes m)"
    by (simp add: collected_dropPrize)
  have flat: "fst (drop m) \<and> grabbedPrize (snd (drop m)) = None \<and>
      gameState (snd (drop m)) = gameState m \<and> isGrabbing (snd (drop m)) = isGrabbing m \<and>
      timers (snd (drop m)) = timers m"
    by (simp add: d)
  from miss [of "(gameState m)\<lparr>isPlaying := False\<rparr>"]
  have after: "streak (gameState (completeGrabSequence r (snd (drop m)))) = 0 \<and>
      combo (gameState (completeGrabSequence r (snd (drop m)))) = 0 \<and>
      points (gameState (completeGrabSequence r (snd (drop m))))
        = points (gameState m) + (if r < 0.3 then 5 else 0) \<and>
      coins (gameState (completeGrabSequence r (snd (drop m)))) = coins (gameState m) \<and>
      gs_prizes (gameState (completeGrabSequence r (snd (drop m)))) = gs_prizes (gameState m)"
    by (simp add: d g)
  from rel col have field: "map collected (prizes (snd (drop m))) = map collected (prizes m) \<and>
      (\<forall>p \<in> set (prizes (snd (drop m))).
          prize_id p = pid \<longrightarrow> \<not> grabbed p \<and> prize_position p = claw_position m)"
    unfolding d snd_conv by blast
  from flat after field show ?thesis
    by blast
qed

text \<open>
  Counterexample to C6 as stated: the prize is dropped while held during the grab
  sequence, with streak 1 and combo 1; when the sequence has completed both are 0.
\<close>

theorem drop_counts_as_miss:
  "grabbedPrize example_holding = Some 1 \<and> isGrabbing example_holding \<and>
   fst (drop example_holding) \<and>
   streak (gameState example_holding) = 1 \<and> combo (gameState example_holding) = 1 \<and>
   streak (gameState example_after_drop) = 0 \<and> combo (gameState example_after_drop) = 0"
  by (simp add: example_holding_val example_after_drop_val drop_def)

text \<open>
  Witness of C6 as amended: in that state the drop leaves the progression state
  alone, and the completion with draw 0.9 resets the streak and keeps the 10 points.
\<close>

theorem drop_then_complete_witness:
  "grabbedPrize example_holding = Some 1 \<and>
   fst (drop example_holding) \<and>
   gameState (snd (drop example_holding)) = gameState example_holding \<and>
   streak (gameState (completeGrabSequence 0.9 (snd (drop example_holding)))) = 0 \<and>
   points (gameState (completeGrabSequence 0.9 (snd (drop example_holding)))) = 10"
proof -
  have a: "grabbedPrize example_holding = Some 1"
    by (simp add: example_holding_val)
  have b: "points (gameState example_holding) = 10"
    by (simp add: example_holding_val)
  show ?thesis
    using drop_then_complete [OF a, of "0.9"] a b by simp
qed

end
